theory Spec2Isabelle
  imports Complex_Main "HOL-Library.Multiset"
begin

section \<open>Third-party summary audit: data model\<close>

text \<open>
  The audit \<open>ThirdPartySummary\<close> attributes transferred bytes and main-thread time to
  third-party entities. A JavaScript number is modelled by the real number it denotes. The
  functions come twice: first with exact arithmetic, then, in the section on double
  precision, with every arithmetic operation rounded as IEEE 754 rounds it. The second
  reading is used where the order of the additions decides a property.

  A thrown JavaScript value is a \<open>js_error\<close>; the outcome of a call that may throw is a
  value of \<open>js_error + 'a\<close>, with \<open>Inl\<close> for the exception.
\<close>

type_synonym number = real

datatype js_error = Error string

text \<open>
  An entity of the \<open>third-party-web\<close> data set. The aggregation map is keyed by the entity
  object itself, so the object's identity is part of the model: \<open>ref\<close> is the reference
  of the object, \<open>name\<close> and \<open>homepage\<close> are the two properties the audit reads
  (\<open>homepage\<close> may be undefined).
\<close>

record ThirdPartyEntity =
  ref :: nat
  name :: string
  homepage :: "string option"

text \<open>
  A network request and a main-thread task, with the properties this audit reads. The
  functions below accept any extension of these records, since the collaborators of
  \<open>bootup-time.js\<close> read further properties of the same objects.
\<close>

record NetworkRequest =
  url :: string
  transferSize :: number

record TaskNode =
  selfTime :: number

record EntityStats =
  mainThreadTime :: number
  transferSize :: number

record LinkValue =
  type :: string
  text_ :: string
  url :: string

text \<open>A row of the result table: the two totals of the entity and its link.\<close>

record Row = EntityStats +
  entity :: LinkValue

record Summary =
  wastedBytes :: number
  wastedMs :: number

text \<open>
  \<open>Audit.makeTableDetails(headings, results, summary)\<close> belongs to \<open>audit.js\<close>; the
  details of the product are kept as the \<open>results\<close> and the \<open>summary\<close> handed to it.
  The constant \<open>headings\<close> (three localized column descriptions) is display data and is
  left out.
\<close>

record TableDetails =
  items :: "Row list"
  summary :: Summary

record AuditProduct =
  score :: number
  details :: TableDetails

record ThrottlingSettings =
  cpuSlowdownMultiplier :: number

record Settings =
  throttlingMethod :: string
  throttling :: ThrottlingSettings

section \<open>The JavaScript \<open>Map\<close>, in insertion order\<close>

text \<open>
  \<open>Map.prototype.get\<close> and \<open>Map.prototype.set\<close> on a list of entries in insertion order:
  \<open>set\<close> on a present key replaces the value in place, on an absent key it appends.
\<close>

fun Map_get :: "('k \<times> 'v) list \<Rightarrow> 'k \<Rightarrow> 'v option" where
  "Map_get [] k = None"
| "Map_get ((k', v') # m) k = (if k' = k then Some v' else Map_get m k)"

fun Map_set :: "('k \<times> 'v) list \<Rightarrow> 'k \<Rightarrow> 'v \<Rightarrow> ('k \<times> 'v) list" where
  "Map_set [] k v = [(k, v)]"
| "Map_set ((k', v') # m) k v = (if k' = k then (k, v) # m else (k', v') # Map_set m k v)"

section \<open>\<open>getEntitySafe\<close>\<close>

text \<open>
  \<open>thirdPartyWeb.getEntity\<close> is the lookup of the external package: it returns an entity,
  returns undefined, or throws. It is the parameter \<open>getEntity\<close> of every function below.
  \<open>getEntitySafe\<close> is the \<open>try\<close>/\<open>catch\<close> around it.
\<close>

definition getEntitySafe ::
  "(string \<Rightarrow> js_error + ThirdPartyEntity option) \<Rightarrow> string \<Rightarrow> js_error + ThirdPartyEntity option" where
  "getEntitySafe getEntity u =
     (case getEntity u of
        Inr e \<Rightarrow> Inr e
      | Inl _ \<Rightarrow> Inr None)"

section \<open>\<open>getSummaryByEntity\<close>\<close>

text \<open>
  \<open>entities.get(entity) || {mainThreadTime: 0, transferSize: 0}\<close>: the stored statistics, or
  a fresh zero object.
\<close>

definition getOrZero :: "(ThirdPartyEntity \<times> EntityStats) list \<Rightarrow> ThirdPartyEntity \<Rightarrow> EntityStats" where
  "getOrZero entities e =
     (case Map_get entities e of
        Some stats \<Rightarrow> stats
      | None \<Rightarrow> \<lparr>mainThreadTime = 0, transferSize = 0\<rparr>)"

text \<open>The first loop, over the network records.\<close>

fun forRequests ::
  "(string \<Rightarrow> js_error + ThirdPartyEntity option) \<Rightarrow> 'a NetworkRequest_scheme list \<Rightarrow>
   (ThirdPartyEntity \<times> EntityStats) list \<Rightarrow> js_error + (ThirdPartyEntity \<times> EntityStats) list" where
  "forRequests getEntity [] entities = Inr entities"
| "forRequests getEntity (request # rest) entities =
     (case getEntitySafe getEntity (NetworkRequest.url request) of
        Inl x \<Rightarrow> Inl x
      | Inr None \<Rightarrow> forRequests getEntity rest entities
      | Inr (Some e) \<Rightarrow>
          (let entityStats = getOrZero entities e;
               entityStats = entityStats\<lparr>EntityStats.transferSize :=
                 EntityStats.transferSize entityStats + NetworkRequest.transferSize request\<rparr>
           in forRequests getEntity rest (Map_set entities e entityStats)))"

text \<open>
  The second loop, over the main-thread tasks. \<open>getAttributableURLForTask\<close> and the set
  \<open>jsURLs\<close> come from \<open>bootup-time.js\<close> and are parameters.
\<close>

fun forTasks ::
  "(string \<Rightarrow> js_error + ThirdPartyEntity option) \<Rightarrow> ('b TaskNode_scheme \<Rightarrow> 'u \<Rightarrow> string) \<Rightarrow> 'u \<Rightarrow>
   number \<Rightarrow> 'b TaskNode_scheme list \<Rightarrow>
   (ThirdPartyEntity \<times> EntityStats) list \<Rightarrow> js_error + (ThirdPartyEntity \<times> EntityStats) list" where
  "forTasks getEntity getAttributableURLForTask jsURLs cpuMultiplier [] entities = Inr entities"
| "forTasks getEntity getAttributableURLForTask jsURLs cpuMultiplier (task # rest) entities =
     (let attributeableURL = getAttributableURLForTask task jsURLs in
      case getEntitySafe getEntity attributeableURL of
        Inl x \<Rightarrow> Inl x
      | Inr None \<Rightarrow> forTasks getEntity getAttributableURLForTask jsURLs cpuMultiplier rest entities
      | Inr (Some e) \<Rightarrow>
          (let entityStats = getOrZero entities e;
               entityStats = entityStats\<lparr>mainThreadTime :=
                 mainThreadTime entityStats + selfTime task * cpuMultiplier\<rparr>
           in forTasks getEntity getAttributableURLForTask jsURLs cpuMultiplier rest
                (Map_set entities e entityStats)))"

definition getSummaryByEntity ::
  "(string \<Rightarrow> js_error + ThirdPartyEntity option) \<Rightarrow> ('a NetworkRequest_scheme list \<Rightarrow> 'u) \<Rightarrow>
   ('b TaskNode_scheme \<Rightarrow> 'u \<Rightarrow> string) \<Rightarrow>
   'a NetworkRequest_scheme list \<Rightarrow> 'b TaskNode_scheme list \<Rightarrow> number \<Rightarrow>
   js_error + (ThirdPartyEntity \<times> EntityStats) list" where
  "getSummaryByEntity getEntity getJavaScriptURLs getAttributableURLForTask
     networkRecords mainThreadTasks cpuMultiplier =
     (case forRequests getEntity networkRecords [] of
        Inl x \<Rightarrow> Inl x
      | Inr entities \<Rightarrow>
          (let jsURLs = getJavaScriptURLs networkRecords
           in forTasks getEntity getAttributableURLForTask jsURLs cpuMultiplier
                mainThreadTasks entities))"

section \<open>\<open>audit\<close>\<close>

definition computeSortValue :: "'a EntityStats_scheme \<Rightarrow> number" where
  "computeSortValue stats = EntityStats.transferSize stats / 1024 + mainThreadTime stats"

text \<open>The comparator handed to \<open>sort\<close>: \<open>(a, b) => computeSortValue(b) - computeSortValue(a)\<close>.\<close>

definition compareRows :: "'a EntityStats_scheme \<Rightarrow> 'a EntityStats_scheme \<Rightarrow> number" where
  "compareRows a b = computeSortValue b - computeSortValue a"

text \<open>
  \<open>Array.prototype.sort\<close> with a comparator. The language fixes the result for a
  consistent comparator, not the algorithm; here it is a stable insertion sort: an element
  goes before the first element it does not compare greater than, so elements that
  compare equal keep their order.
\<close>

fun insertSorted :: "('a \<Rightarrow> 'a \<Rightarrow> number) \<Rightarrow> 'a \<Rightarrow> 'a list \<Rightarrow> 'a list" where
  "insertSorted cmp x [] = [x]"
| "insertSorted cmp x (y # ys) =
     (if cmp x y \<le> 0 then x # y # ys else y # insertSorted cmp x ys)"

fun Array_sort :: "('a \<Rightarrow> 'a \<Rightarrow> number) \<Rightarrow> 'a list \<Rightarrow> 'a list" where
  "Array_sort cmp [] = []"
| "Array_sort cmp (x # xs) = insertSorted cmp x (Array_sort cmp xs)"

text \<open>
  The callback of \<open>.map\<close> over the entries of the map: it adds the statistics to the
  running \<open>summary\<close> (here \<open>totals\<close>) and returns the row. \<open>entity.homepage || ''\<close> is
  the empty string for a missing homepage.
\<close>

definition toRow :: "ThirdPartyEntity \<Rightarrow> EntityStats \<Rightarrow> Row" where
  "toRow e stats =
     \<lparr>mainThreadTime = mainThreadTime stats,
      transferSize = EntityStats.transferSize stats,
      entity = \<lparr>type = ''link'', text_ = name e,
                 url = (case homepage e of Some h \<Rightarrow> h | None \<Rightarrow> '''')\<rparr>\<rparr>"

fun mapEntries :: "(ThirdPartyEntity \<times> EntityStats) list \<Rightarrow> Summary \<Rightarrow> Row list \<times> Summary" where
  "mapEntries [] totals = ([], totals)"
| "mapEntries ((e, stats) # rest) totals =
     (let totals = totals\<lparr>wastedBytes := wastedBytes totals + EntityStats.transferSize stats\<rparr>;
          totals = totals\<lparr>wastedMs := wastedMs totals + mainThreadTime stats\<rparr>;
          row = toRow e stats;
          (rows, totals) = mapEntries rest totals
      in (row # rows, totals))"

text \<open>
  The expression bound to \<open>multiplier\<close> in \<open>audit\<close>. \<open>settings\<close> is \<open>context.settings\<close>,
  \<open>None\<close> when it is missing: the source then takes \<open>{}\<close>, whose \<open>throttlingMethod\<close> is
  undefined and so differs from \<open>'simulate'\<close>.
\<close>

definition multiplier :: "Settings option \<Rightarrow> number" where
  "multiplier settings =
     (case settings of
        None \<Rightarrow> 1
      | Some s \<Rightarrow>
          if throttlingMethod s = ''simulate''
          then cpuSlowdownMultiplier (throttling s) else 1)"

text \<open>
  \<open>audit\<close>, after its two awaited inputs: \<open>networkRecords\<close> and \<open>tasks\<close> are the values of
  the two computed artifacts.
\<close>

definition audit ::
  "(string \<Rightarrow> js_error + ThirdPartyEntity option) \<Rightarrow> ('a NetworkRequest_scheme list \<Rightarrow> 'u) \<Rightarrow>
   ('b TaskNode_scheme \<Rightarrow> 'u \<Rightarrow> string) \<Rightarrow>
   Settings option \<Rightarrow> 'a NetworkRequest_scheme list \<Rightarrow> 'b TaskNode_scheme list \<Rightarrow>
   js_error + AuditProduct" where
  "audit getEntity getJavaScriptURLs getAttributableURLForTask settings networkRecords tasks =
     (case getSummaryByEntity getEntity getJavaScriptURLs getAttributableURLForTask
             networkRecords tasks (multiplier settings) of
        Inl x \<Rightarrow> Inl x
      | Inr summaryByEntity \<Rightarrow>
          (let (mapped, totals) = mapEntries summaryByEntity \<lparr>wastedBytes = 0, wastedMs = 0\<rparr>;
               results = Array_sort compareRows mapped
           in Inr \<lparr>score = (if length results = 0 then 1 else 0),
                   details = \<lparr>items = results, summary = totals\<rparr>\<rparr>))"

section \<open>The same functions in double precision\<close>















section \<open>A small knowledge base for concrete runs\<close>

definition analytics :: ThirdPartyEntity where
  "analytics = \<lparr>ref = 1, name = ''Google Analytics'', homepage = Some ''https://www.google.com/analytics/analytics/''\<rparr>"

definition widget :: ThirdPartyEntity where
  "widget = \<lparr>ref = 2, name = ''Widget'', homepage = None\<rparr>"

text \<open>
  A lookup in the manner of \<open>third-party-web\<close>: two known hosts, undefined for an unknown
  host, and an exception for a string with no dot in it.
\<close>

definition sampleGetEntity :: "string \<Rightarrow> js_error + ThirdPartyEntity option" where
  "sampleGetEntity u =
     (if u = ''https://www.google-analytics.com/analytics.js'' \<or> u = ''https://www.google-analytics.com/collect''
      then Inr (Some analytics)
      else if u = ''https://widget.example/w.js'' then Inr (Some widget)
      else if CHR ''.'' \<in> set u then Inr None
      else Inl (Error ''Unable to find domain''))"

text \<open>
  Stand-ins for the two collaborators of \<open>bootup-time.js\<close>, for concrete runs only: every
  record counts as a script, and a task is charged to its first attributable URL among
  the script URLs, else to its first attributable URL, else to \<open>Other\<close>.
\<close>

definition sampleJsURLs :: "NetworkRequest list \<Rightarrow> string list" where
  "sampleJsURLs records = map NetworkRequest.url records"

record AttributedTask = TaskNode +
  attributableURLs :: "string list"

definition sampleAttributableURL :: "AttributedTask \<Rightarrow> string list \<Rightarrow> string" where
  "sampleAttributableURL task jsURLs =
     (case filter (\<lambda>u. u \<in> set jsURLs) (attributableURLs task) of
        u # _ \<Rightarrow> u
      | [] \<Rightarrow> (case attributableURLs task of u # _ \<Rightarrow> u | [] \<Rightarrow> ''Other''))"



section \<open>Properties of the map and of the two loops\<close>

lemma getEntitySafe_returns: "getEntitySafe kb u \<noteq> Inl x"
  by (simp add: getEntitySafe_def split: sum.split)

lemma getEntitySafe_cases:
  obtains "getEntitySafe kb u = Inr None" | e where "getEntitySafe kb u = Inr (Some e)"
  by (cases "getEntitySafe kb u") (auto simp: getEntitySafe_returns)

lemma keys_Map_set:
  "map fst (Map_set m k v) = (if k \<in> set (map fst m) then map fst m else map fst m @ [k])"
  by (induction m) (fastforce split: if_splits)+

lemma Map_get_Map_set: "Map_get (Map_set m k v) k' = (if k' = k then Some v else Map_get m k')"
  by (induction m) auto

lemma Map_get_None: "Map_get m k = None \<longleftrightarrow> k \<notin> set (map fst m)"
  by (induction m) (fastforce split: if_splits)+

lemma Map_get_Some_mem: "Map_get m k = Some v \<Longrightarrow> (k, v) \<in> set m"
  by (induction m) (auto split: if_splits)

lemma mem_Map_get: "distinct (map fst m) \<Longrightarrow> (k, v) \<in> set m \<Longrightarrow> Map_get m k = Some v"
  by (induction m) (auto simp: rev_image_eqI)

lemma distinct_Map_set: "distinct (map fst m) \<Longrightarrow> distinct (map fst (Map_set m k v))"
  by (simp add: keys_Map_set)

lemma getOrZero_Map_set:
  "getOrZero (Map_set m k v) k' = (if k' = k then v else getOrZero m k')"
  by (simp add: getOrZero_def Map_get_Map_set)

lemma Map_get_getOrZero: "k \<in> set (map fst m) \<Longrightarrow> Map_get m k = Some (getOrZero m k)"
  by (cases "Map_get m k") (auto simp: getOrZero_def Map_get_None)

lemma getOrZero_Nil: "getOrZero [] e = \<lparr>mainThreadTime = 0, transferSize = 0\<rparr>"
  by (simp add: getOrZero_def)

subsection \<open>The loop over the network records\<close>

lemma forRequests_returns: "\<exists>m'. forRequests kb rs m = Inr m'"
proof (induction rs arbitrary: m)
  case Nil
  show ?case by simp
next
  case (Cons r rs)
  show ?case
    by (cases rule: getEntitySafe_cases [of kb "NetworkRequest.url r"]) (simp_all add: Cons.IH Let_def)
qed

lemma forRequests_keys:
  "forRequests kb rs m = Inr m' \<Longrightarrow>
   set (map fst m') = set (map fst m) \<union> {e. \<exists>r \<in> set rs. getEntitySafe kb (NetworkRequest.url r) = Inr (Some e)}"
proof (induction rs arbitrary: m)
  case Nil
  then show ?case by simp
next
  case (Cons r rs)
  show ?case
  proof (cases rule: getEntitySafe_cases [of kb "NetworkRequest.url r"])
    case 1
    with Cons.prems have "forRequests kb rs m = Inr m'" by simp
    from Cons.IH [OF this] 1 show ?thesis by auto
  next
    case (2 e)
    let ?m = "Map_set m e ((getOrZero m e)\<lparr>EntityStats.transferSize :=
                 EntityStats.transferSize (getOrZero m e) + NetworkRequest.transferSize r\<rparr>)"
    from 2 Cons.prems have "forRequests kb rs ?m = Inr m'" by (simp add: Let_def)
    from Cons.IH [OF this] 2 show ?thesis by (auto simp: keys_Map_set split: if_splits)
  qed
qed

lemma forRequests_distinct:
  "forRequests kb rs m = Inr m' \<Longrightarrow> distinct (map fst m) \<Longrightarrow> distinct (map fst m')"
proof (induction rs arbitrary: m)
  case Nil
  then show ?case by simp
next
  case (Cons r rs)
  show ?case
  proof (cases rule: getEntitySafe_cases [of kb "NetworkRequest.url r"])
    case 1
    with Cons.prems have "forRequests kb rs m = Inr m'" by simp
    from Cons.IH [OF this] Cons.prems(2) show ?thesis .
  next
    case (2 e)
    let ?m = "Map_set m e ((getOrZero m e)\<lparr>EntityStats.transferSize :=
                 EntityStats.transferSize (getOrZero m e) + NetworkRequest.transferSize r\<rparr>)"
    from 2 Cons.prems have "forRequests kb rs ?m = Inr m'" by (simp add: Let_def)
    from Cons.IH [OF this] Cons.prems(2) show ?thesis by (simp add: distinct_Map_set)
  qed
qed

lemma forRequests_stats:
  "forRequests kb rs m = Inr m' \<Longrightarrow>
   getOrZero m' e =
     \<lparr>mainThreadTime = mainThreadTime (getOrZero m e),
      transferSize = EntityStats.transferSize (getOrZero m e) +
        (\<Sum>r \<leftarrow> filter (\<lambda>r. getEntitySafe kb (NetworkRequest.url r) = Inr (Some e)) rs.
           NetworkRequest.transferSize r)\<rparr>"
proof (induction rs arbitrary: m)
  case Nil
  then show ?case by simp
next
  case (Cons r rs)
  show ?case
  proof (cases rule: getEntitySafe_cases [of kb "NetworkRequest.url r"])
    case 1
    with Cons.prems have "forRequests kb rs m = Inr m'" by simp
    from Cons.IH [OF this] 1 show ?thesis by simp
  next
    case (2 e')
    let ?m = "Map_set m e' ((getOrZero m e')\<lparr>EntityStats.transferSize :=
                 EntityStats.transferSize (getOrZero m e') + NetworkRequest.transferSize r\<rparr>)"
    from 2 Cons.prems have "forRequests kb rs ?m = Inr m'" by (simp add: Let_def)
    from Cons.IH [OF this] 2 show ?thesis by (simp add: getOrZero_Map_set)
  qed
qed

subsection \<open>The loop over the tasks\<close>

lemma forTasks_returns: "\<exists>m'. forTasks kb ga js c ts m = Inr m'"
proof (induction ts arbitrary: m)
  case Nil
  show ?case by simp
next
  case (Cons t ts)
  show ?case
    by (cases rule: getEntitySafe_cases [of kb "ga t js"]) (simp_all add: Cons.IH Let_def)
qed

lemma forTasks_keys:
  "forTasks kb ga js c ts m = Inr m' \<Longrightarrow>
   set (map fst m') = set (map fst m) \<union> {e. \<exists>t \<in> set ts. getEntitySafe kb (ga t js) = Inr (Some e)}"
proof (induction ts arbitrary: m)
  case Nil
  then show ?case by simp
next
  case (Cons t ts)
  show ?case
  proof (cases rule: getEntitySafe_cases [of kb "ga t js"])
    case 1
    with Cons.prems have "forTasks kb ga js c ts m = Inr m'" by simp
    from Cons.IH [OF this] 1 show ?thesis by auto
  next
    case (2 e)
    let ?m = "Map_set m e ((getOrZero m e)\<lparr>mainThreadTime :=
                 mainThreadTime (getOrZero m e) + selfTime t * c\<rparr>)"
    from 2 Cons.prems have "forTasks kb ga js c ts ?m = Inr m'" by (simp add: Let_def)
    from Cons.IH [OF this] 2 show ?thesis by (auto simp: keys_Map_set split: if_splits)
  qed
qed

lemma forTasks_distinct:
  "forTasks kb ga js c ts m = Inr m' \<Longrightarrow> distinct (map fst m) \<Longrightarrow> distinct (map fst m')"
proof (induction ts arbitrary: m)
  case Nil
  then show ?case by simp
next
  case (Cons t ts)
  show ?case
  proof (cases rule: getEntitySafe_cases [of kb "ga t js"])
    case 1
    with Cons.prems have "forTasks kb ga js c ts m = Inr m'" by simp
    from Cons.IH [OF this] Cons.prems(2) show ?thesis .
  next
    case (2 e)
    let ?m = "Map_set m e ((getOrZero m e)\<lparr>mainThreadTime :=
                 mainThreadTime (getOrZero m e) + selfTime t * c\<rparr>)"
    from 2 Cons.prems have "forTasks kb ga js c ts ?m = Inr m'" by (simp add: Let_def)
    from Cons.IH [OF this] Cons.prems(2) show ?thesis by (simp add: distinct_Map_set)
  qed
qed

lemma forTasks_stats:
  "forTasks kb ga js c ts m = Inr m' \<Longrightarrow>
   getOrZero m' e =
     \<lparr>mainThreadTime = mainThreadTime (getOrZero m e) +
        (\<Sum>t \<leftarrow> filter (\<lambda>t. getEntitySafe kb (ga t js) = Inr (Some e)) ts. selfTime t * c),
      transferSize = EntityStats.transferSize (getOrZero m e)\<rparr>"
proof (induction ts arbitrary: m)
  case Nil
  then show ?case by simp
next
  case (Cons t ts)
  show ?case
  proof (cases rule: getEntitySafe_cases [of kb "ga t js"])
    case 1
    with Cons.prems have "forTasks kb ga js c ts m = Inr m'" by simp
    from Cons.IH [OF this] 1 show ?thesis by simp
  next
    case (2 e')
    let ?m = "Map_set m e' ((getOrZero m e')\<lparr>mainThreadTime :=
                 mainThreadTime (getOrZero m e') + selfTime t * c\<rparr>)"
    from 2 Cons.prems have "forTasks kb ga js c ts ?m = Inr m'" by (simp add: Let_def)
    from Cons.IH [OF this] 2 show ?thesis by (simp add: getOrZero_Map_set)
  qed
qed

subsection \<open>The whole aggregation\<close>

lemma getSummaryByEntity_returns: "\<exists>m. getSummaryByEntity kb gj ga rs ts c = Inr m"
proof -
  obtain m0 where "forRequests kb rs [] = Inr m0"
    using forRequests_returns by blast
  then show ?thesis
    by (simp add: getSummaryByEntity_def forTasks_returns)
qed

lemma getSummaryByEntity_split:
  assumes "getSummaryByEntity kb gj ga rs ts c = Inr m"
  obtains m0 where "forRequests kb rs [] = Inr m0" and "forTasks kb ga (gj rs) c ts m0 = Inr m"
  using assms by (auto simp: getSummaryByEntity_def split: sum.splits)

lemma getSummaryByEntity_distinct:
  assumes "getSummaryByEntity kb gj ga rs ts c = Inr m"
  shows "distinct (map fst m)"
proof -
  from assms obtain m0 where a: "forRequests kb rs [] = Inr m0"
    and b: "forTasks kb ga (gj rs) c ts m0 = Inr m"
    by (rule getSummaryByEntity_split)
  from forRequests_distinct [OF a] have "distinct (map fst m0)" by simp
  with forTasks_distinct [OF b] show ?thesis .
qed

lemma getSummaryByEntity_keys:
  assumes "getSummaryByEntity kb gj ga rs ts c = Inr m"
  shows "set (map fst m) =
     {e. \<exists>r \<in> set rs. getEntitySafe kb (NetworkRequest.url r) = Inr (Some e)} \<union>
     {e. \<exists>t \<in> set ts. getEntitySafe kb (ga t (gj rs)) = Inr (Some e)}"
proof -
  from assms obtain m0 where a: "forRequests kb rs [] = Inr m0"
    and b: "forTasks kb ga (gj rs) c ts m0 = Inr m"
    by (rule getSummaryByEntity_split)
  show ?thesis
    using forRequests_keys [OF a] forTasks_keys [OF b] by simp
qed

lemma getSummaryByEntity_stats:
  assumes "getSummaryByEntity kb gj ga rs ts c = Inr m"
  shows "getOrZero m e =
     \<lparr>mainThreadTime =
        (\<Sum>t \<leftarrow> filter (\<lambda>t. getEntitySafe kb (ga t (gj rs)) = Inr (Some e)) ts. selfTime t) * c,
      transferSize =
        (\<Sum>r \<leftarrow> filter (\<lambda>r. getEntitySafe kb (NetworkRequest.url r) = Inr (Some e)) rs.
           NetworkRequest.transferSize r)\<rparr>"
proof -
  from assms obtain m0 where a: "forRequests kb rs [] = Inr m0"
    and b: "forTasks kb ga (gj rs) c ts m0 = Inr m"
    by (rule getSummaryByEntity_split)
  show ?thesis
    by (simp add: forTasks_stats [OF b] forRequests_stats [OF a] getOrZero_Nil sum_list_mult_const)
qed

lemma getSummaryByEntity_entry:
  assumes "getSummaryByEntity kb gj ga rs ts c = Inr m" and "(e, s) \<in> set m"
  shows "s = getOrZero m e"
proof -
  have "distinct (map fst m)" using assms(1) by (rule getSummaryByEntity_distinct)
  then have "Map_get m e = Some s" using assms(2) by (rule mem_Map_get)
  then show ?thesis by (simp add: getOrZero_def)
qed

subsection \<open>Sorting\<close>

lemma mset_insertSorted: "mset (insertSorted cmp x ys) = add_mset x (mset ys)"
  by (induction ys) simp_all

lemma mset_Array_sort: "mset (Array_sort cmp xs) = mset xs"
  by (induction xs) (simp_all add: mset_insertSorted)

lemma set_Array_sort: "set (Array_sort cmp xs) = set xs"
  using mset_Array_sort [of cmp xs] by (metis set_mset_mset)

lemma length_Array_sort: "length (Array_sort cmp xs) = length xs"
  using mset_Array_sort [of cmp xs] by (metis size_mset)




subsection \<open>Rows and totals\<close>

lemma mapEntries_rows: "fst (mapEntries m totals) = map (\<lambda>(e, s). toRow e s) m"
  by (induction m totals rule: mapEntries.induct) (simp_all add: Let_def case_prod_beta)

lemma mapEntries_totals:
  "snd (mapEntries m totals) =
     \<lparr>wastedBytes = wastedBytes totals + sum_list (map (\<lambda>(e, s). EntityStats.transferSize s) m),
      wastedMs = wastedMs totals + sum_list (map (\<lambda>(e, s). mainThreadTime s) m)\<rparr>"
  by (induction m totals rule: mapEntries.induct) (simp_all add: Let_def case_prod_beta)

lemma audit_unfold:
  assumes "getSummaryByEntity kb gj ga rs ts (multiplier settings) = Inr m"
  shows "audit kb gj ga settings rs ts =
     Inr \<lparr>score = (if m = [] then 1 else 0),
          details = \<lparr>items = Array_sort compareRows (map (\<lambda>(e, s). toRow e s) m),
                     summary = \<lparr>wastedBytes = sum_list (map (\<lambda>(e, s). EntityStats.transferSize s) m),
                                wastedMs = sum_list (map (\<lambda>(e, s). mainThreadTime s) m)\<rparr>\<rparr>\<rparr>"
proof -
  obtain rows totals where mt: "mapEntries m \<lparr>wastedBytes = 0, wastedMs = 0\<rparr> = (rows, totals)"
    by (cases "mapEntries m \<lparr>wastedBytes = 0, wastedMs = 0\<rparr>")
  have r: "rows = map (\<lambda>(e, s). toRow e s) m"
    using mapEntries_rows [of m "\<lparr>wastedBytes = 0, wastedMs = 0\<rparr>"] mt by simp
  have t: "totals = \<lparr>wastedBytes = sum_list (map (\<lambda>(e, s). EntityStats.transferSize s) m),
                     wastedMs = sum_list (map (\<lambda>(e, s). mainThreadTime s) m)\<rparr>"
    using mapEntries_totals [of m "\<lparr>wastedBytes = 0, wastedMs = 0\<rparr>"] mt by simp
  have "length (Array_sort compareRows rows) = 0 \<longleftrightarrow> m = []"
    by (simp add: length_Array_sort r)
  then show ?thesis
    by (simp add: audit_def assms mt r t)
qed

section \<open>Properties of the audit\<close>

lemma audit_returns_unfolded:
  obtains m where "getSummaryByEntity kb gj ga rs ts (multiplier settings) = Inr m"
    and "audit kb gj ga settings rs ts =
     Inr \<lparr>score = (if m = [] then 1 else 0),
          details = \<lparr>items = Array_sort compareRows (map (\<lambda>(e, s). toRow e s) m),
                     summary = \<lparr>wastedBytes = sum_list (map (\<lambda>(e, s). EntityStats.transferSize s) m),
                                wastedMs = sum_list (map (\<lambda>(e, s). mainThreadTime s) m)\<rparr>\<rparr>\<rparr>"
  using getSummaryByEntity_returns audit_unfold by blast


lemma forRequests_append:
  "forRequests kb (xs @ ys) m =
     (case forRequests kb xs m of Inl x \<Rightarrow> Inl x | Inr m' \<Rightarrow> forRequests kb ys m')"
proof (induction xs arbitrary: m)
  case Nil
  show ?case by simp
next
  case (Cons r xs)
  show ?case
    by (cases rule: getEntitySafe_cases [of kb "NetworkRequest.url r"]) (simp_all add: Cons.IH Let_def)
qed

lemma getEntitySafe_unresolved:
  "\<forall>e. kb u \<noteq> Inr (Some e) \<Longrightarrow> getEntitySafe kb u = Inr None"
  by (cases "kb u") (auto simp: getEntitySafe_def)

lemma getEntitySafe_Some_iff:
  "getEntitySafe kb u = Inr (Some e) \<longleftrightarrow> kb u = Inr (Some e)"
  by (cases "kb u") (auto simp: getEntitySafe_def)

lemma apsnd_Map_set:
  "map (apsnd f) (Map_set m k v) = Map_set (map (apsnd f) m) k (f v)"
  by (induction m) auto

lemma Map_get_apsnd:
  "Map_get (map (apsnd f) m) k = map_option f (Map_get m k)"
  by (induction m) auto

lemma transferSize_getOrZero:
  "EntityStats.transferSize (getOrZero m e) =
     (case Map_get (map (apsnd EntityStats.transferSize) m) e of Some b \<Rightarrow> b | None \<Rightarrow> 0)"
  by (simp add: getOrZero_def Map_get_apsnd split: option.split)

lemma forTasks_transferSize:
  "forTasks kb ga js c1 ts m1 = Inr m1' \<Longrightarrow> forTasks kb ga js c2 ts m2 = Inr m2' \<Longrightarrow>
   map (apsnd EntityStats.transferSize) m1 = map (apsnd EntityStats.transferSize) m2 \<Longrightarrow>
   map (apsnd EntityStats.transferSize) m1' = map (apsnd EntityStats.transferSize) m2'"
proof (induction ts arbitrary: m1 m2)
  case Nil
  then show ?case by simp
next
  case (Cons t ts)
  show ?case
  proof (cases rule: getEntitySafe_cases [of kb "ga t js"])
    case 1
    with Cons.prems have "forTasks kb ga js c1 ts m1 = Inr m1'" "forTasks kb ga js c2 ts m2 = Inr m2'"
      by simp_all
    then show ?thesis using Cons.prems(3) by (rule Cons.IH)
  next
    case (2 e)
    let ?n1 = "Map_set m1 e ((getOrZero m1 e)\<lparr>mainThreadTime :=
                 mainThreadTime (getOrZero m1 e) + selfTime t * c1\<rparr>)"
    let ?n2 = "Map_set m2 e ((getOrZero m2 e)\<lparr>mainThreadTime :=
                 mainThreadTime (getOrZero m2 e) + selfTime t * c2\<rparr>)"
    from 2 Cons.prems have r: "forTasks kb ga js c1 ts ?n1 = Inr m1'" "forTasks kb ga js c2 ts ?n2 = Inr m2'"
      by (simp_all add: Let_def)
    have "map (apsnd EntityStats.transferSize) ?n1 = map (apsnd EntityStats.transferSize) ?n2"
    proof -
      have "EntityStats.transferSize (getOrZero m1 e) = EntityStats.transferSize (getOrZero m2 e)"
        by (simp only: transferSize_getOrZero Cons.prems(3))
      then show ?thesis
        by (simp add: apsnd_Map_set Cons.prems(3))
    qed
    with r show ?thesis by (rule Cons.IH)
  qed
qed

lemma getSummaryByEntity_transferSize:
  assumes "getSummaryByEntity kb gj ga rs ts c1 = Inr m1" and "getSummaryByEntity kb gj ga rs ts c2 = Inr m2"
  shows "map (apsnd EntityStats.transferSize) m1 = map (apsnd EntityStats.transferSize) m2"
proof -
  from assms(1) obtain n1 where a1: "forRequests kb rs [] = Inr n1"
    and b1: "forTasks kb ga (gj rs) c1 ts n1 = Inr m1"
    by (rule getSummaryByEntity_split)
  from assms(2) obtain n2 where a2: "forRequests kb rs [] = Inr n2"
    and b2: "forTasks kb ga (gj rs) c2 ts n2 = Inr m2"
    by (rule getSummaryByEntity_split)
  from a1 a2 have "n1 = n2" by simp
  with b2 have "forTasks kb ga (gj rs) c2 ts n1 = Inr m2" by simp
  with b1 show ?thesis by (rule forTasks_transferSize) (rule refl)
qed

lemma getSummaryByEntity_times:
  assumes "getSummaryByEntity kb gj ga rs ts c = Inr m"
  shows "map (\<lambda>(e, s). mainThreadTime s) m =
     map (\<lambda>(e, s). (\<Sum>t \<leftarrow> filter (\<lambda>t. getEntitySafe kb (ga t (gj rs)) = Inr (Some e)) ts. selfTime t) * c) m"
proof (rule map_cong [OF refl])
  fix x assume xm: "x \<in> set m"
  obtain e s where x: "x = (e, s)" by (cases x)
  with xm have "(e, s) \<in> set m" by simp
  with assms have "s = getOrZero m e" by (rule getSummaryByEntity_entry)
  then show "(case x of (e, s) \<Rightarrow> mainThreadTime s) =
     (case x of (e, s) \<Rightarrow> (\<Sum>t \<leftarrow> filter (\<lambda>t. getEntitySafe kb (ga t (gj rs)) = Inr (Some e)) ts. selfTime t) * c)"
    by (simp add: x getSummaryByEntity_stats [OF assms])
qed

lemma entry_has_row:
  assumes "getSummaryByEntity kb gj ga rs ts (multiplier settings) = Inr m" and "Map_get m e = Some s"
  shows "\<exists>p. audit kb gj ga settings rs ts = Inr p \<and> toRow e s \<in> set (items (details p))"
proof -
  from assms(2) have "(e, s) \<in> set m" by (rule Map_get_Some_mem)
  then have "toRow e s \<in> set (map (\<lambda>(e, s). toRow e s) m)" by force
  then show ?thesis
    by (simp add: audit_unfold [OF assms(1)] set_Array_sort)
qed

lemma attributed_entity_entry:
  assumes "getSummaryByEntity kb gj ga rs ts c = Inr m"
    and "t \<in> set ts" and "kb (ga t (gj rs)) = Inr (Some e)"
  shows "Map_get m e = Some (getOrZero m e)"
proof -
  from assms(2,3) have "e \<in> {e. \<exists>t \<in> set ts. getEntitySafe kb (ga t (gj rs)) = Inr (Some e)}"
    by (auto simp: getEntitySafe_Some_iff)
  then have "e \<in> set (map fst m)"
    by (simp only: getSummaryByEntity_keys [OF assms(1)] Un_iff simp_thms)
  then show ?thesis by (rule Map_get_getOrZero)
qed

lemma single_task_time:
  assumes "kb (ga t (gj rs)) = Inr (Some e)"
  shows "\<exists>m s. getSummaryByEntity kb gj ga rs [t] c = Inr m \<and> Map_get m e = Some s
           \<and> mainThreadTime s = selfTime t * c"
proof -
  obtain m where m: "getSummaryByEntity kb gj ga rs [t] c = Inr m"
    using getSummaryByEntity_returns by blast
  have "Map_get m e = Some (getOrZero m e)"
    using m _ assms by (rule attributed_entity_entry) simp
  moreover have "mainThreadTime (getOrZero m e) = selfTime t * c"
    by (simp add: getSummaryByEntity_stats [OF m] getEntitySafe_Some_iff assms)
  ultimately show ?thesis using m by blast
qed

lemma rows_bytes_from_entries:
  "image_mset (\<lambda>r. (entity r, EntityStats.transferSize r)) (mset (map (\<lambda>(e, s). toRow e s) m)) =
   image_mset (\<lambda>(e, b). (entity (toRow e \<lparr>mainThreadTime = 0, transferSize = 0\<rparr>), b))
     (mset (map (apsnd EntityStats.transferSize) m))"
  by (induction m) (auto simp: toRow_def)

lemma rows_urls_from_entries:
  "image_mset (\<lambda>r. LinkValue.url (entity r)) (mset (map (\<lambda>(e, s). toRow e s) m)) =
   image_mset (\<lambda>(e, s). case homepage e of Some h \<Rightarrow> h | None \<Rightarrow> '''') (mset m)"
  by (induction m) (auto simp: toRow_def)

lemma sample_widget_run:
  "audit sampleGetEntity sampleJsURLs sampleAttributableURL None
     [\<lparr>NetworkRequest.url = ''https://widget.example/w.js'', NetworkRequest.transferSize = 2048\<rparr>]
     ([] :: AttributedTask list) =
   Inr \<lparr>score = 0,
        details = \<lparr>items = [\<lparr>mainThreadTime = 0, transferSize = 2048,
                              entity = \<lparr>type = ''link'', text_ = ''Widget'', url = ''''\<rparr>\<rparr>],
                   summary = \<lparr>wastedBytes = 2048, wastedMs = 0\<rparr>\<rparr>\<rparr>"
  by (simp add: audit_def getSummaryByEntity_def getEntitySafe_def getOrZero_def sampleGetEntity_def
      toRow_def widget_def)

subsection \<open>The functions in double precision\<close>








section \<open>The claims\<close>




text \<open>
  Claim C3. A network record whose URL the lookup does not resolve to an entity is skipped
  by the loop over the records: the map is left as it was, and with no tasks the aggregate
  is the one of the other records. In particular the single record with URL
  \<open>not a url\<close> and 500 bytes, with no tasks, gives no rows and zero wasted bytes, when
  the lookup does not resolve that string.
\<close>

theorem unresolved_record_contributes_nothing:
  assumes "\<forall>e. getEntity (NetworkRequest.url request) \<noteq> Inr (Some e)"
    and "\<forall>e. getEntity ''not a url'' \<noteq> Inr (Some e)"
  shows "forRequests getEntity (request # rest) entities = forRequests getEntity rest entities
     \<and> getSummaryByEntity getEntity getJavaScriptURLs getAttributableURLForTask
          (before @ request # rest) [] cpuMultiplier =
        getSummaryByEntity getEntity getJavaScriptURLs getAttributableURLForTask
          (before @ rest) [] cpuMultiplier
     \<and> audit getEntity getJavaScriptURLs getAttributableURLForTask settings
          [\<lparr>NetworkRequest.url = ''not a url'', NetworkRequest.transferSize = 500\<rparr>] [] =
        Inr \<lparr>score = 1, details = \<lparr>items = [], summary = \<lparr>wastedBytes = 0, wastedMs = 0\<rparr>\<rparr>\<rparr>"
proof -
  have skip: "forRequests getEntity (request # rest) m = forRequests getEntity rest m" for m
    using getEntitySafe_unresolved [of getEntity "NetworkRequest.url request"] assms(1) by simp
  have "forRequests getEntity (before @ request # rest) [] = forRequests getEntity (before @ rest) []"
    by (simp only: forRequests_append skip)
  then have "getSummaryByEntity getEntity getJavaScriptURLs getAttributableURLForTask
          (before @ request # rest) [] cpuMultiplier =
        getSummaryByEntity getEntity getJavaScriptURLs getAttributableURLForTask
          (before @ rest) [] cpuMultiplier"
    by (simp add: getSummaryByEntity_def split: sum.split)
  moreover have "audit getEntity getJavaScriptURLs getAttributableURLForTask settings
          [\<lparr>NetworkRequest.url = ''not a url'', NetworkRequest.transferSize = 500\<rparr>] [] =
        Inr \<lparr>score = 1, details = \<lparr>items = [], summary = \<lparr>wastedBytes = 0, wastedMs = 0\<rparr>\<rparr>\<rparr>"
    using getEntitySafe_unresolved [of getEntity "''not a url''"] assms(2)
    by (simp add: audit_def getSummaryByEntity_def)
  ultimately show ?thesis using skip by simp
qed

theorem unresolved_record_contributes_nothing_witness:
  "getSummaryByEntity sampleGetEntity sampleJsURLs sampleAttributableURL
      [\<lparr>NetworkRequest.url = ''https://www.google-analytics.com/collect'', NetworkRequest.transferSize = 100\<rparr>,
       \<lparr>NetworkRequest.url = ''not a url'', NetworkRequest.transferSize = 500\<rparr>,
       \<lparr>NetworkRequest.url = ''https://widget.example/w.js'', NetworkRequest.transferSize = 7\<rparr>] [] 1 =
    getSummaryByEntity sampleGetEntity sampleJsURLs sampleAttributableURL
      [\<lparr>NetworkRequest.url = ''https://www.google-analytics.com/collect'', NetworkRequest.transferSize = 100\<rparr>,
       \<lparr>NetworkRequest.url = ''https://widget.example/w.js'', NetworkRequest.transferSize = 7\<rparr>] [] 1
   \<and> audit sampleGetEntity sampleJsURLs sampleAttributableURL None
          [\<lparr>NetworkRequest.url = ''not a url'', NetworkRequest.transferSize = 500\<rparr>] [] =
        Inr \<lparr>score = 1, details = \<lparr>items = [], summary = \<lparr>wastedBytes = 0, wastedMs = 0\<rparr>\<rparr>\<rparr>"
proof -
  have h: "\<forall>e. sampleGetEntity ''not a url'' \<noteq> Inr (Some e)"
    by (simp add: sampleGetEntity_def)
  show ?thesis
    using unresolved_record_contributes_nothing
      [of sampleGetEntity "\<lparr>NetworkRequest.url = ''not a url'', NetworkRequest.transferSize = 500\<rparr>"
          "[\<lparr>NetworkRequest.url = ''https://widget.example/w.js'', NetworkRequest.transferSize = 7\<rparr>]"
          "[]" sampleJsURLs sampleAttributableURL
          "[\<lparr>NetworkRequest.url = ''https://www.google-analytics.com/collect'', NetworkRequest.transferSize = 100\<rparr>]"
          1 None]
      h
    by simp
qed

text \<open>
  Claim C4. \<open>getEntitySafe\<close> returns for every string: the result of the lookup when the
  lookup returns, and undefined when the lookup throws. Hence the aggregation and the audit
  return for every input and never end in an exception.
\<close>

theorem getEntitySafe_never_throws:
  "(\<exists>r. getEntitySafe getEntity u = Inr r
        \<and> (case getEntity u of Inl x \<Rightarrow> r = None | Inr e \<Rightarrow> r = e))
   \<and> (\<exists>m. getSummaryByEntity getEntity getJavaScriptURLs getAttributableURLForTask
             networkRecords tasks cpuMultiplier = Inr m)
   \<and> (\<exists>p. audit getEntity getJavaScriptURLs getAttributableURLForTask settings networkRecords tasks = Inr p)"
proof -
  have "\<exists>r. getEntitySafe getEntity u = Inr r
        \<and> (case getEntity u of Inl x \<Rightarrow> r = None | Inr e \<Rightarrow> r = e)"
    by (simp add: getEntitySafe_def split: sum.split)
  moreover have "\<exists>p. audit getEntity getJavaScriptURLs getAttributableURLForTask settings networkRecords tasks = Inr p"
    using audit_returns_unfolded [of getEntity getJavaScriptURLs getAttributableURLForTask networkRecords tasks settings]
    by blast
  ultimately show ?thesis
    using getSummaryByEntity_returns by blast
qed

text \<open>
  Claim C5. A task with \<open>selfTime = 100\<close> attributed to a resolved entity gives that entity
  a \<open>mainThreadTime\<close> of 400 under the multiplier 4 and of 100 under the multiplier 1. For
  every input, the \<open>mainThreadTime\<close> of every entry is the multiplier times the summed
  \<open>selfTime\<close> of the tasks attributed to its entity; the entities and their \<open>transferSize\<close>
  are the same under any two multipliers, and so are \<open>wastedBytes\<close> and the \<open>transferSize\<close>
  of each entity's row.
\<close>

theorem cpuMultiplier_scales_time_only:
  assumes "getEntity (getAttributableURLForTask task (getJavaScriptURLs networkRecords)) = Inr (Some e)"
    and "selfTime task = 100"
  shows "(\<exists>m s. getSummaryByEntity getEntity getJavaScriptURLs getAttributableURLForTask
                  networkRecords [task] 4 = Inr m
              \<and> Map_get m e = Some s \<and> mainThreadTime s = 400)
     \<and> (\<exists>m s. getSummaryByEntity getEntity getJavaScriptURLs getAttributableURLForTask
                  networkRecords [task] 1 = Inr m
              \<and> Map_get m e = Some s \<and> mainThreadTime s = 100)
     \<and> (\<exists>m. getSummaryByEntity getEntity getJavaScriptURLs getAttributableURLForTask
                networkRecords tasks c = Inr m
            \<and> map (\<lambda>(e, s). mainThreadTime s) m =
              map (\<lambda>(e, s). (\<Sum>t \<leftarrow> filter (\<lambda>t. getEntitySafe getEntity
                     (getAttributableURLForTask t (getJavaScriptURLs networkRecords)) = Inr (Some e)) tasks.
                   selfTime t) * c) m)
     \<and> (\<exists>m1 m2. getSummaryByEntity getEntity getJavaScriptURLs getAttributableURLForTask
                   networkRecords tasks c1 = Inr m1
               \<and> getSummaryByEntity getEntity getJavaScriptURLs getAttributableURLForTask
                   networkRecords tasks c2 = Inr m2
               \<and> map (apsnd EntityStats.transferSize) m1 = map (apsnd EntityStats.transferSize) m2)
     \<and> (\<exists>p1 p2. audit getEntity getJavaScriptURLs getAttributableURLForTask settings1 networkRecords tasks = Inr p1
               \<and> audit getEntity getJavaScriptURLs getAttributableURLForTask settings2 networkRecords tasks = Inr p2
               \<and> wastedBytes (summary (details p1)) = wastedBytes (summary (details p2))
               \<and> image_mset (\<lambda>r. (entity r, EntityStats.transferSize r)) (mset (items (details p1))) =
                 image_mset (\<lambda>r. (entity r, EntityStats.transferSize r)) (mset (items (details p2))))"
proof -
  have one: "\<exists>m s. getSummaryByEntity getEntity getJavaScriptURLs getAttributableURLForTask
                  networkRecords [task] k = Inr m
              \<and> Map_get m e = Some s \<and> mainThreadTime s = 100 * k" for k
    using single_task_time [of getEntity getAttributableURLForTask task getJavaScriptURLs networkRecords e k]
      assms by simp
  have four: "\<exists>m s. getSummaryByEntity getEntity getJavaScriptURLs getAttributableURLForTask
                  networkRecords [task] 4 = Inr m
              \<and> Map_get m e = Some s \<and> mainThreadTime s = 400"
    using one [of 4] by simp
  have unit: "\<exists>m s. getSummaryByEntity getEntity getJavaScriptURLs getAttributableURLForTask
                  networkRecords [task] 1 = Inr m
              \<and> Map_get m e = Some s \<and> mainThreadTime s = 100"
    using one [of 1] by simp
  have uniform: "\<exists>m. getSummaryByEntity getEntity getJavaScriptURLs getAttributableURLForTask
                networkRecords tasks c = Inr m
            \<and> map (\<lambda>(e, s). mainThreadTime s) m =
              map (\<lambda>(e, s). (\<Sum>t \<leftarrow> filter (\<lambda>t. getEntitySafe getEntity
                     (getAttributableURLForTask t (getJavaScriptURLs networkRecords)) = Inr (Some e)) tasks.
                   selfTime t) * c) m"
  proof -
    obtain n where n: "getSummaryByEntity getEntity getJavaScriptURLs getAttributableURLForTask
                networkRecords tasks c = Inr n"
      using getSummaryByEntity_returns by blast
    from getSummaryByEntity_times [OF n] n show ?thesis by blast
  qed
  have bytes: "\<exists>m1 m2. getSummaryByEntity getEntity getJavaScriptURLs getAttributableURLForTask
                   networkRecords tasks k1 = Inr m1
               \<and> getSummaryByEntity getEntity getJavaScriptURLs getAttributableURLForTask
                   networkRecords tasks k2 = Inr m2
               \<and> map (apsnd EntityStats.transferSize) m1 = map (apsnd EntityStats.transferSize) m2" for k1 k2
  proof -
    obtain n1 where n1: "getSummaryByEntity getEntity getJavaScriptURLs getAttributableURLForTask
                   networkRecords tasks k1 = Inr n1"
      using getSummaryByEntity_returns by blast
    obtain n2 where n2: "getSummaryByEntity getEntity getJavaScriptURLs getAttributableURLForTask
                   networkRecords tasks k2 = Inr n2"
      using getSummaryByEntity_returns by blast
    from n1 n2 have "map (apsnd EntityStats.transferSize) n1 = map (apsnd EntityStats.transferSize) n2"
      by (rule getSummaryByEntity_transferSize)
    with n1 n2 show ?thesis by blast
  qed
  obtain m1 m2 where
    m1: "getSummaryByEntity getEntity getJavaScriptURLs getAttributableURLForTask
           networkRecords tasks (multiplier settings1) = Inr m1" and
    m2: "getSummaryByEntity getEntity getJavaScriptURLs getAttributableURLForTask
           networkRecords tasks (multiplier settings2) = Inr m2" and
    eq: "map (apsnd EntityStats.transferSize) m1 = map (apsnd EntityStats.transferSize) m2"
    using bytes [of "multiplier settings1" "multiplier settings2"] by blast
  have sums: "sum_list (map (\<lambda>(e, s). EntityStats.transferSize s) m) =
      sum_list (map snd (map (apsnd EntityStats.transferSize) m))" for m :: "(ThirdPartyEntity \<times> EntityStats) list"
    by (induction m) auto
  have wasted: "sum_list (map (\<lambda>(e, s). EntityStats.transferSize s) m1) =
      sum_list (map (\<lambda>(e, s). EntityStats.transferSize s) m2)"
    by (simp only: sums eq)
  have rows: "image_mset (\<lambda>r. (entity r, EntityStats.transferSize r)) (mset (map (\<lambda>(e, s). toRow e s) m1)) =
      image_mset (\<lambda>r. (entity r, EntityStats.transferSize r)) (mset (map (\<lambda>(e, s). toRow e s) m2))"
    by (simp only: rows_bytes_from_entries eq)
  have audits: "\<exists>p1 p2. audit getEntity getJavaScriptURLs getAttributableURLForTask settings1 networkRecords tasks = Inr p1
               \<and> audit getEntity getJavaScriptURLs getAttributableURLForTask settings2 networkRecords tasks = Inr p2
               \<and> wastedBytes (summary (details p1)) = wastedBytes (summary (details p2))
               \<and> image_mset (\<lambda>r. (entity r, EntityStats.transferSize r)) (mset (items (details p1))) =
                 image_mset (\<lambda>r. (entity r, EntityStats.transferSize r)) (mset (items (details p2)))"
    using wasted rows by (simp add: audit_unfold [OF m1] audit_unfold [OF m2] mset_Array_sort)
  from four unit uniform bytes [of c1 c2] audits show ?thesis by (intro conjI)
qed

theorem cpuMultiplier_scales_time_only_witness:
  "(\<exists>m s. getSummaryByEntity sampleGetEntity sampleJsURLs sampleAttributableURL
        [\<lparr>NetworkRequest.url = ''https://www.google-analytics.com/analytics.js'', NetworkRequest.transferSize = 2048\<rparr>]
        [\<lparr>selfTime = 100, attributableURLs = [''https://www.google-analytics.com/analytics.js'']\<rparr>] 4 = Inr m
      \<and> Map_get m analytics = Some s \<and> mainThreadTime s = 400)
   \<and> (\<exists>m s. getSummaryByEntity sampleGetEntity sampleJsURLs sampleAttributableURL
        [\<lparr>NetworkRequest.url = ''https://www.google-analytics.com/analytics.js'', NetworkRequest.transferSize = 2048\<rparr>]
        [\<lparr>selfTime = 100, attributableURLs = [''https://www.google-analytics.com/analytics.js'']\<rparr>] 1 = Inr m
      \<and> Map_get m analytics = Some s \<and> mainThreadTime s = 100)"
proof -
  have h: "sampleGetEntity (sampleAttributableURL
        \<lparr>selfTime = 100, attributableURLs = [''https://www.google-analytics.com/analytics.js'']\<rparr>
        (sampleJsURLs [\<lparr>NetworkRequest.url = ''https://www.google-analytics.com/analytics.js'',
                        NetworkRequest.transferSize = 2048\<rparr>])) = Inr (Some analytics)"
    by (simp add: sampleGetEntity_def sampleAttributableURL_def sampleJsURLs_def)
  have t: "selfTime \<lparr>selfTime = 100, attributableURLs = [''https://www.google-analytics.com/analytics.js'']\<rparr> = 100"
    by simp
  from cpuMultiplier_scales_time_only
    [of sampleGetEntity sampleAttributableURL
        "\<lparr>selfTime = 100, attributableURLs = [''https://www.google-analytics.com/analytics.js'']\<rparr>"
        sampleJsURLs
        "[\<lparr>NetworkRequest.url = ''https://www.google-analytics.com/analytics.js'', NetworkRequest.transferSize = 2048\<rparr>]"
        analytics, OF h t]
  show ?thesis by blast
qed

text \<open>
  Claim C6. Two network records of 100 and 200 bytes and a task with \<open>selfTime = 50\<close>, all
  resolved to the same entity, under the multiplier 1, give one entry and one row for that
  entity, with \<open>transferSize = 300\<close> and \<open>mainThreadTime = 50\<close>.
\<close>

theorem same_entity_contributions_merge:
  assumes "getEntity (NetworkRequest.url r1) = Inr (Some e)"
    and "getEntity (NetworkRequest.url r2) = Inr (Some e)"
    and "getEntity (getAttributableURLForTask task (getJavaScriptURLs [r1, r2])) = Inr (Some e)"
    and "NetworkRequest.transferSize r1 = 100" and "NetworkRequest.transferSize r2 = 200"
    and "selfTime task = 50" and "multiplier settings = 1"
  shows "getSummaryByEntity getEntity getJavaScriptURLs getAttributableURLForTask [r1, r2] [task] 1 =
        Inr [(e, \<lparr>mainThreadTime = 50, transferSize = 300\<rparr>)]
     \<and> audit getEntity getJavaScriptURLs getAttributableURLForTask settings [r1, r2] [task] =
        Inr \<lparr>score = 0,
             details = \<lparr>items = [\<lparr>mainThreadTime = 50, transferSize = 300,
                                   entity = \<lparr>type = ''link'', text_ = name e,
                                              url = (case homepage e of Some h \<Rightarrow> h | None \<Rightarrow> '''')\<rparr>\<rparr>],
                        summary = \<lparr>wastedBytes = 300, wastedMs = 50\<rparr>\<rparr>\<rparr>"
proof -
  have agg: "getSummaryByEntity getEntity getJavaScriptURLs getAttributableURLForTask [r1, r2] [task] 1 =
        Inr [(e, \<lparr>mainThreadTime = 50, transferSize = 300\<rparr>)]"
    using assms(1-6) by (simp add: getSummaryByEntity_def getEntitySafe_def getOrZero_def)
  then have "getSummaryByEntity getEntity getJavaScriptURLs getAttributableURLForTask [r1, r2] [task]
       (multiplier settings) = Inr [(e, \<lparr>mainThreadTime = 50, transferSize = 300\<rparr>)]"
    by (simp only: assms(7))
  from audit_unfold [OF this] agg show ?thesis
    by (simp add: toRow_def)
qed

theorem same_entity_contributions_merge_witness:
  "audit sampleGetEntity sampleJsURLs sampleAttributableURL None
     [\<lparr>NetworkRequest.url = ''https://www.google-analytics.com/analytics.js'', NetworkRequest.transferSize = 100\<rparr>,
      \<lparr>NetworkRequest.url = ''https://www.google-analytics.com/collect'', NetworkRequest.transferSize = 200\<rparr>]
     [\<lparr>selfTime = 50, attributableURLs = [''https://www.google-analytics.com/analytics.js'']\<rparr>] =
   Inr \<lparr>score = 0,
        details = \<lparr>items = [\<lparr>mainThreadTime = 50, transferSize = 300,
                              entity = \<lparr>type = ''link'', text_ = ''Google Analytics'',
                                         url = ''https://www.google.com/analytics/analytics/''\<rparr>\<rparr>],
                   summary = \<lparr>wastedBytes = 300, wastedMs = 50\<rparr>\<rparr>\<rparr>"
proof -
  let ?r1 = "\<lparr>NetworkRequest.url = ''https://www.google-analytics.com/analytics.js'', NetworkRequest.transferSize = 100\<rparr>"
  let ?r2 = "\<lparr>NetworkRequest.url = ''https://www.google-analytics.com/collect'', NetworkRequest.transferSize = 200\<rparr>"
  let ?t = "\<lparr>selfTime = 50, attributableURLs = [''https://www.google-analytics.com/analytics.js'']\<rparr>"
  have h1: "sampleGetEntity (NetworkRequest.url ?r1) = Inr (Some analytics)"
    by (simp add: sampleGetEntity_def)
  have h2: "sampleGetEntity (NetworkRequest.url ?r2) = Inr (Some analytics)"
    by (simp add: sampleGetEntity_def)
  have h3: "sampleGetEntity (sampleAttributableURL ?t (sampleJsURLs [?r1, ?r2])) = Inr (Some analytics)"
    by (simp add: sampleGetEntity_def sampleAttributableURL_def sampleJsURLs_def)
  have h7: "multiplier None = 1" by (simp add: multiplier_def)
  from same_entity_contributions_merge
    [of sampleGetEntity ?r1 analytics ?r2 sampleAttributableURL ?t sampleJsURLs None, OF h1 h2 h3 _ _ _ h7]
  show ?thesis by (simp add: analytics_def)
qed

text \<open>
  Claim C7. For every input, the keys of the aggregate are pairwise distinct, and the rows
  are exactly the images of its entries, one row for each entry.
\<close>

theorem entity_keys_unique:
  "\<exists>m p. getSummaryByEntity getEntity getJavaScriptURLs getAttributableURLForTask
            networkRecords tasks (multiplier settings) = Inr m
     \<and> audit getEntity getJavaScriptURLs getAttributableURLForTask settings networkRecords tasks = Inr p
     \<and> distinct (map fst m)
     \<and> mset (items (details p)) = mset (map (\<lambda>(e, s). toRow e s) m)
     \<and> length (items (details p)) = length m"
proof -
  obtain m where a: "getSummaryByEntity getEntity getJavaScriptURLs getAttributableURLForTask
            networkRecords tasks (multiplier settings) = Inr m" and
    b: "audit getEntity getJavaScriptURLs getAttributableURLForTask settings networkRecords tasks =
     Inr \<lparr>score = (if m = [] then 1 else 0),
          details = \<lparr>items = Array_sort compareRows (map (\<lambda>(e, s). toRow e s) m),
                     summary = \<lparr>wastedBytes = sum_list (map (\<lambda>(e, s). EntityStats.transferSize s) m),
                                wastedMs = sum_list (map (\<lambda>(e, s). mainThreadTime s) m)\<rparr>\<rparr>\<rparr>"
    by (rule audit_returns_unfolded)
  have "distinct (map fst m)" using a by (rule getSummaryByEntity_distinct)
  with a b show ?thesis
    by (simp add: mset_Array_sort length_Array_sort)
qed

text \<open>
  Claim C8. For every input, the score is 1 exactly when there are no rows, and it is 0
  whenever there is a row.
\<close>

theorem score_one_iff_no_rows:
  "\<exists>p. audit getEntity getJavaScriptURLs getAttributableURLForTask settings networkRecords tasks = Inr p
     \<and> (score p = 1 \<longleftrightarrow> items (details p) = [])
     \<and> (items (details p) \<noteq> [] \<longrightarrow> score p = 0)"
proof -
  obtain m where
    b: "audit getEntity getJavaScriptURLs getAttributableURLForTask settings networkRecords tasks =
     Inr \<lparr>score = (if m = [] then 1 else 0),
          details = \<lparr>items = Array_sort compareRows (map (\<lambda>(e, s). toRow e s) m),
                     summary = \<lparr>wastedBytes = sum_list (map (\<lambda>(e, s). EntityStats.transferSize s) m),
                                wastedMs = sum_list (map (\<lambda>(e, s). mainThreadTime s) m)\<rparr>\<rparr>\<rparr>"
    by (rule audit_returns_unfolded)
  have "Array_sort compareRows (map (\<lambda>(e, s). toRow e s) m) = [] \<longleftrightarrow> m = []"
    using length_Array_sort [of compareRows "map (\<lambda>(e, s). toRow e s) m"] by (metis length_0_conv length_map)
  with b show ?thesis by simp
qed

theorem score_one_iff_no_rows_witness:
  "\<exists>p. audit sampleGetEntity sampleJsURLs sampleAttributableURL None
     [\<lparr>NetworkRequest.url = ''https://widget.example/w.js'', NetworkRequest.transferSize = 2048\<rparr>]
     ([] :: AttributedTask list) = Inr p
     \<and> items (details p) \<noteq> [] \<and> score p = 0"
proof -
  from score_one_iff_no_rows
    [of sampleGetEntity sampleJsURLs sampleAttributableURL None
        "[\<lparr>NetworkRequest.url = ''https://widget.example/w.js'', NetworkRequest.transferSize = 2048\<rparr>]"
        "[] :: AttributedTask list"]
  obtain p where p: "audit sampleGetEntity sampleJsURLs sampleAttributableURL None
     [\<lparr>NetworkRequest.url = ''https://widget.example/w.js'', NetworkRequest.transferSize = 2048\<rparr>]
     ([] :: AttributedTask list) = Inr p"
    and imp: "items (details p) \<noteq> [] \<longrightarrow> score p = 0"
    by blast
  from p have "items (details p) \<noteq> []"
    by (auto simp: sample_widget_run)
  with imp p show ?thesis by blast
qed

text \<open>
  Claim C9. With no network records and no tasks the audit returns no rows, a summary of
  zero bytes and zero milliseconds, and the score 1.
\<close>

theorem empty_input_passes:
  "audit getEntity getJavaScriptURLs getAttributableURLForTask settings [] [] =
     Inr \<lparr>score = 1, details = \<lparr>items = [], summary = \<lparr>wastedBytes = 0, wastedMs = 0\<rparr>\<rparr>\<rparr>"
  by (simp add: audit_def getSummaryByEntity_def)

text \<open>
  Claim C10. For every input, every row is the row of an entry of the aggregate and the URL
  of its link is the homepage of that entry's entity, the empty string when the entity has
  no homepage. An entity that a task is attributed to, and no network record resolves to,
  has an entry and a row with \<open>transferSize = 0\<close>.
\<close>

theorem rows_carry_url_and_zero_bytes:
  "\<exists>m p. getSummaryByEntity getEntity getJavaScriptURLs getAttributableURLForTask
            networkRecords tasks (multiplier settings) = Inr m
     \<and> audit getEntity getJavaScriptURLs getAttributableURLForTask settings networkRecords tasks = Inr p
     \<and> image_mset (\<lambda>r. LinkValue.url (entity r)) (mset (items (details p))) =
         image_mset (\<lambda>(e, s). case homepage e of Some h \<Rightarrow> h | None \<Rightarrow> '''') (mset m)
     \<and> (\<forall>r \<in> set (items (details p)). \<exists>e s. (e, s) \<in> set m \<and> r = toRow e s
            \<and> LinkValue.url (entity r) = (case homepage e of Some h \<Rightarrow> h | None \<Rightarrow> ''''))
     \<and> (task \<in> set tasks
          \<and> getEntity (getAttributableURLForTask task (getJavaScriptURLs networkRecords)) = Inr (Some e)
          \<and> (\<forall>r \<in> set networkRecords. getEntity (NetworkRequest.url r) \<noteq> Inr (Some e))
          \<longrightarrow> (\<exists>s. Map_get m e = Some s \<and> EntityStats.transferSize s = 0
                 \<and> toRow e s \<in> set (items (details p))
                 \<and> EntityStats.transferSize (toRow e s) = 0))"
proof -
  obtain m where m: "getSummaryByEntity getEntity getJavaScriptURLs getAttributableURLForTask
                  networkRecords tasks (multiplier settings) = Inr m"
    using getSummaryByEntity_returns by blast
  define p where "p =
     \<lparr>score = (if m = [] then 1 else 0),
      details = \<lparr>items = Array_sort compareRows (map (\<lambda>(e, s). toRow e s) m),
                 summary = \<lparr>wastedBytes = sum_list (map (\<lambda>(e, s). EntityStats.transferSize s) m),
                            wastedMs = sum_list (map (\<lambda>(e, s). mainThreadTime s) m)\<rparr>\<rparr>\<rparr>"
  have p: "audit getEntity getJavaScriptURLs getAttributableURLForTask settings networkRecords tasks = Inr p"
    unfolding p_def using m by (rule audit_unfold)
  have rows: "items (details p) = Array_sort compareRows (map (\<lambda>(e, s). toRow e s) m)"
    by (simp add: p_def)
  have urls: "image_mset (\<lambda>r. LinkValue.url (entity r)) (mset (items (details p))) =
         image_mset (\<lambda>(e, s). case homepage e of Some h \<Rightarrow> h | None \<Rightarrow> '''') (mset m)"
    by (simp only: rows mset_Array_sort rows_urls_from_entries)
  have each: "\<forall>r \<in> set (items (details p)). \<exists>e s. (e, s) \<in> set m \<and> r = toRow e s
            \<and> LinkValue.url (entity r) = (case homepage e of Some h \<Rightarrow> h | None \<Rightarrow> '''')"
  proof
    fix r assume "r \<in> set (items (details p))"
    then have "r \<in> set (map (\<lambda>(e, s). toRow e s) m)"
      by (simp only: rows set_Array_sort)
    then obtain e s where "(e, s) \<in> set m" and "r = toRow e s" by auto
    moreover have "LinkValue.url (entity (toRow e s)) = (case homepage e of Some h \<Rightarrow> h | None \<Rightarrow> '''')"
      by (simp add: toRow_def)
    ultimately show "\<exists>e s. (e, s) \<in> set m \<and> r = toRow e s
            \<and> LinkValue.url (entity r) = (case homepage e of Some h \<Rightarrow> h | None \<Rightarrow> '''')"
      by blast
  qed
  have only_tasks: "\<exists>s. Map_get m e = Some s \<and> EntityStats.transferSize s = 0
                 \<and> toRow e s \<in> set (items (details p))
                 \<and> EntityStats.transferSize (toRow e s) = 0"
    if a: "task \<in> set tasks"
      and b: "getEntity (getAttributableURLForTask task (getJavaScriptURLs networkRecords)) = Inr (Some e)"
      and c: "\<forall>r \<in> set networkRecords. getEntity (NetworkRequest.url r) \<noteq> Inr (Some e)"
  proof -
    let ?s = "getOrZero m e"
    have entry: "Map_get m e = Some ?s"
      using m a b by (rule attributed_entity_entry)
    have "filter (\<lambda>r. getEntitySafe getEntity (NetworkRequest.url r) = Inr (Some e)) networkRecords = []"
      using c by (simp add: getEntitySafe_Some_iff filter_empty_conv)
    then have zero: "EntityStats.transferSize ?s = 0"
      by (simp add: getSummaryByEntity_stats [OF m])
    from entry have "(e, ?s) \<in> set m" by (rule Map_get_Some_mem)
    then have "toRow e ?s \<in> set (map (\<lambda>(e, s). toRow e s) m)" by force
    then have row: "toRow e ?s \<in> set (items (details p))"
      by (simp only: rows set_Array_sort)
    have "EntityStats.transferSize (toRow e ?s) = 0"
      using zero by (simp add: toRow_def)
    with entry zero row show ?thesis by blast
  qed
  from m p urls each only_tasks show ?thesis by blast
qed

theorem rows_carry_url_and_zero_bytes_witness:
  "\<exists>m p s. getSummaryByEntity sampleGetEntity sampleJsURLs sampleAttributableURL
       [\<lparr>NetworkRequest.url = ''https://www.google-analytics.com/collect'', NetworkRequest.transferSize = 100\<rparr>]
       [\<lparr>selfTime = 7, attributableURLs = [''https://widget.example/w.js'']\<rparr>] (multiplier None) = Inr m
     \<and> audit sampleGetEntity sampleJsURLs sampleAttributableURL None
       [\<lparr>NetworkRequest.url = ''https://www.google-analytics.com/collect'', NetworkRequest.transferSize = 100\<rparr>]
       [\<lparr>selfTime = 7, attributableURLs = [''https://widget.example/w.js'']\<rparr>] = Inr p
     \<and> Map_get m widget = Some s \<and> EntityStats.transferSize s = 0
     \<and> toRow widget s \<in> set (items (details p))
     \<and> LinkValue.url (entity (toRow widget s)) = ''''"
proof -
  let ?r = "\<lparr>NetworkRequest.url = ''https://www.google-analytics.com/collect'', NetworkRequest.transferSize = 100\<rparr>"
  let ?t = "\<lparr>selfTime = 7, attributableURLs = [''https://widget.example/w.js'']\<rparr>"
  have h1: "?t \<in> set [?t]" by simp
  have h2: "sampleGetEntity (sampleAttributableURL ?t (sampleJsURLs [?r])) = Inr (Some widget)"
    by (simp add: sampleGetEntity_def sampleAttributableURL_def sampleJsURLs_def)
  have h3: "\<forall>r \<in> set [?r]. sampleGetEntity (NetworkRequest.url r) \<noteq> Inr (Some widget)"
    by (simp add: sampleGetEntity_def analytics_def widget_def)
  have h4: "LinkValue.url (entity (toRow widget s)) = ''''" for s
    by (simp add: toRow_def widget_def)
  from rows_carry_url_and_zero_bytes
    [of sampleGetEntity sampleJsURLs sampleAttributableURL "[?r]" "[?t]" None ?t widget]
    h1 h2 h3 h4
  show ?thesis by blast
qed

end
